theory Spec2Isabelle
  imports Main
begin

section \<open>JavaScript values and array primitives used by the table root\<close>

text \<open>
  A JavaScript array is a list. An element that is \<open>undefined\<close> (an empty slot reads
  as \<open>undefined\<close>, and the spread \<open>[...a]\<close> turns empty slots into \<open>undefined\<close>
  elements) is \<open>None\<close>; every other element is \<open>Some v\<close>. Indices and counts that the
  code computes are \<open>int\<close>, because \<open>indexOf\<close> answers \<open>-1\<close> and \<open>splice\<close> accepts
  negative positions.

  An optional boolean property (\<open>enableSelection?: boolean\<close>) is a \<open>bool option\<close>;
  a condition reads it through \<open>truthy\<close>, so an omitted flag counts as false.
\<close>

definition truthy :: "bool option \<Rightarrow> bool" where
  "truthy b = (case b of None \<Rightarrow> False | Some v \<Rightarrow> v)"

text \<open>
  \<open>Array.prototype.indexOf\<close>: the first position whose element is strictly equal to the
  searched value, scanning from position 0, and \<open>-1\<close> when there is none.
\<close>

fun indexOfFrom :: "'a list \<Rightarrow> 'a \<Rightarrow> int \<Rightarrow> int" where
  "indexOfFrom [] x k = - 1"
| "indexOfFrom (y # ys) x k = (if y = x then k else indexOfFrom ys x (k + 1))"

definition indexOf :: "'a list \<Rightarrow> 'a \<Rightarrow> int" where
  "indexOf xs x = indexOfFrom xs x 0"

text \<open>\<open>Array.prototype.includes\<close>.\<close>

fun includes_of :: "'a list \<Rightarrow> 'a \<Rightarrow> bool" where
  "includes_of [] x = False"
| "includes_of (y # ys) x = (y = x \<or> includes_of ys x)"

text \<open>
  \<open>Array.prototype.splice(start, deleteCount, ...items)\<close>. A negative \<open>start\<close> counts
  from the end and is clamped at 0, a \<open>start\<close> past the end is clamped at the length;
  \<open>deleteCount\<close> is clamped between 0 and the number of elements from the start on.
  The result is the pair of the removed elements (what \<open>splice\<close> returns) and the array
  as \<open>splice\<close> leaves it.
\<close>

definition actualStart :: "int \<Rightarrow> nat \<Rightarrow> nat" where
  "actualStart start len =
     (if start < 0 then nat (max (int len + start) 0) else nat (min start (int len)))"

definition splice :: "'a list \<Rightarrow> int \<Rightarrow> int \<Rightarrow> 'a list \<Rightarrow> 'a list \<times> 'a list" where
  "splice arr start deleteCount items =
     (let s = actualStart start (length arr);
          d = nat (min (max deleteCount 0) (int (length arr) - int s))
      in (take d (drop s arr), take s arr @ items @ drop (s + d) arr))"

text \<open>
  Modelled from the spec: \<open>arrayMove\<close> is imported from the drag-and-drop library
  (\<open>@dnd-kit/sortable\<close>); its body is not part of the repository. The spec calls it the
  array reordering primitive and describes its effect as a single-element relocation in
  which the elements between source and target shift by one slot. The definition realises
  that relocation the way the library's function does,
  \<^verbatim>\<open>
  const newArray = array.slice();
  newArray.splice(to < 0 ? newArray.length + to : to, 0, newArray.splice(from, 1)[0]);
  return newArray;
  \<close>
  on a copy of the array: the insertion position is read first (a negative \<open>to\<close> counts
  from the end of the array as it is then), the element at \<open>from\<close> is removed with
  \<open>splice(from, 1)\<close>, and element 0 of what was removed (\<open>undefined\<close> when nothing
  was) is inserted with \<open>splice(position, 0, item)\<close>.
\<close>

definition arrayMove :: "'a option list \<Rightarrow> int \<Rightarrow> int \<Rightarrow> 'a option list" where
  "arrayMove array from to =
     (let newArray = array;
          position = (if to < 0 then int (length newArray) + to else to);
          (removed, newArray) = splice newArray from 1 [];
          item = (case removed of [] \<Rightarrow> None | x # _ \<Rightarrow> x);
          (_, newArray) = splice newArray position 0 [item]
      in newArray)"

section \<open>The table root (\<open>composition-pattern/root.tsx\<close>)\<close>

subsection \<open>\<open>updateData\<close>\<close>

text \<open>
  \<open>newData = [...prevData]; newData[rowIndex] = updatedData; return newData\<close>.
  The assignment \<open>newData[rowIndex] = v\<close> writes an element only when \<open>rowIndex\<close> is an
  array index, an integer from 0 up to \<open>2^32 - 2\<close>: inside the array it replaces the
  element, at or past the length it extends the array, leaving the positions in between
  \<open>undefined\<close>. Under any other key (a negative number, or a number from \<open>2^32 - 1\<close> on)
  the assignment defines an ordinary property of the array object, and its length and
  elements stay as they are. A JavaScript array has at most \<open>2^32 - 1\<close> elements, so a
  position inside the array is always an array index. The model takes \<open>rowIndex\<close> as an
  integer; \<open>updatedData\<close> is any value of the row type or \<open>undefined\<close>.
\<close>

definition maxArrayIndex :: int where
  "maxArrayIndex = 2 ^ 32 - 2"

definition updateData :: "'a option list \<Rightarrow> int \<Rightarrow> 'a option \<Rightarrow> 'a option list" where
  "updateData prevData rowIndex updatedData =
     (let newData = prevData
      in if rowIndex < 0 then newData
         else if rowIndex < int (length newData) then newData[nat rowIndex := updatedData]
         else if rowIndex \<le> maxArrayIndex
           then newData @ replicate (nat rowIndex - length newData) None @ [updatedData]
         else newData)"

subsection \<open>Column augmentation (\<open>memoColumns\<close>)\<close>

text \<open>
  A column definition, with the properties the root sets or reads. The header and cell
  renderers are closures over the table engine; they are named by what they render. A
  renderer of the caller is \<open>Custom u\<close>.
\<close>

datatype 'u renderer =
    SelectAllCheckbox
  | ExpandAllButton
  | SelectAllCheckboxAndExpandAllButton
  | SelectRowCheckbox
  | ExpandRowButton
  | SelectRowCheckboxAndExpandRowButton
  | Custom 'u

record 'u columnDef =
  column_id :: "string option"
  header :: "'u renderer option"
  cell :: "'u renderer option"
  enableSorting :: "bool option"
  enableHiding :: "bool option"

definition selectExpandColumn :: "'u columnDef" where
  "selectExpandColumn =
     \<lparr>column_id = Some ''select-expand'',
      header = Some SelectAllCheckboxAndExpandAllButton,
      cell = Some SelectRowCheckboxAndExpandRowButton,
      enableSorting = Some False, enableHiding = Some False\<rparr>"

definition selectColumn :: "'u columnDef" where
  "selectColumn =
     \<lparr>column_id = Some ''select'',
      header = Some SelectAllCheckbox,
      cell = Some SelectRowCheckbox,
      enableSorting = Some False, enableHiding = Some False\<rparr>"

definition expandColumn :: "'u columnDef" where
  "expandColumn =
     \<lparr>column_id = Some ''expand'',
      header = Some ExpandAllButton,
      cell = Some ExpandRowButton,
      enableSorting = Some False, enableHiding = Some False\<rparr>"

definition memoColumns ::
  "'u columnDef list \<Rightarrow> bool option \<Rightarrow> bool option \<Rightarrow> 'u columnDef list" where
  "memoColumns columns enableSelection enableExpansion =
     (let newColumns = columns
      in if truthy enableSelection \<and> truthy enableExpansion
           then selectExpandColumn # newColumns
         else if truthy enableSelection \<and> \<not> truthy enableExpansion
           then selectColumn # newColumns
         else if truthy enableExpansion \<and> \<not> truthy enableSelection
           then expandColumn # newColumns
         else newColumns)"

subsection \<open>The column order and the drag-end handler\<close>

text \<open>
  The initial state of \<open>columnOrder\<close>:
  \<open>memoColumns.map((column) => (enableColumnReorder && column.id ? column.id : ""))\<close>.
  The condition is true when the flag is set and \<open>column.id\<close> is a non-empty string.
\<close>

definition initialColumnOrder :: "'u columnDef list \<Rightarrow> bool option \<Rightarrow> string option list" where
  "initialColumnOrder memoCols enableColumnReorder =
     map (\<lambda>column.
            case column_id column of
              None \<Rightarrow> Some ''''
            | Some i \<Rightarrow> if truthy enableColumnReorder \<and> i \<noteq> '''' then Some i else Some '''')
         memoCols"

text \<open>
  The initial column order as the specification words it: each entry is the column's id
  if reordering is enabled and the column declares an id, else the empty string.
\<close>

definition columnOrder_spec :: "'u columnDef list \<Rightarrow> bool option \<Rightarrow> string list" where
  "columnOrder_spec memoCols enableColumnReorder =
     map (\<lambda>column.
            if truthy enableColumnReorder \<and> column_id column \<noteq> None
            then the (column_id column) else '''')
         memoCols"

text \<open>
  A drag-end event carries the dragged item \<open>active\<close> and the item it was dropped on,
  \<open>over\<close>; either may be missing (\<open>null\<close>). Of each item the handler reads only the id,
  which it treats as a string.
\<close>

record dragEndEvent =
  active :: "string option"
  over :: "string option"

definition reservedIds :: "string list" where
  "reservedIds = [''select'', ''expand'', ''select-expand'']"

definition handleDragEnd :: "string option list \<Rightarrow> dragEndEvent \<Rightarrow> string option list" where
  "handleDragEnd columnOrder event =
     (case active event of
        None \<Rightarrow> columnOrder
      | Some activeId \<Rightarrow>
         (case over event of
            None \<Rightarrow> columnOrder
          | Some overId \<Rightarrow>
             if activeId \<noteq> overId \<and> \<not> includes_of reservedIds overId
             then (let oldIndex = indexOf columnOrder (Some activeId);
                       newIndex = indexOf columnOrder (Some overId)
                   in arrayMove columnOrder oldIndex newIndex)
             else columnOrder))"

section \<open>The table context (\<open>table-context.tsx\<close>)\<close>

text \<open>
  A consumer sees the values of the \<open>TableProvider\<close>s that enclose it, the nearest first.
  \<open>useContext\<close> answers the nearest value, or the default of \<open>createContext\<close>,
  \<open>undefined\<close>, when there is none. \<open>TableProvider\<close> always provides an object, which
  is truthy, so \<open>!context\<close> holds exactly when \<open>useContext\<close> answered \<open>undefined\<close>.
\<close>

datatype error = Error string

definition TableProvider :: "'v \<Rightarrow> 'v list \<Rightarrow> 'v list" where
  "TableProvider v enclosing = v # enclosing"

definition useContext :: "'v list \<Rightarrow> 'v option" where
  "useContext enclosing = (case enclosing of [] \<Rightarrow> None | v # _ \<Rightarrow> Some v)"

definition useTableContext :: "'v list \<Rightarrow> error + 'v" where
  "useTableContext enclosing =
     (let context = useContext enclosing
      in case context of
           None \<Rightarrow> Inl (Error ''useTableContext must be used within a TableProvider'')
         | Some c \<Rightarrow> Inr c)"

section \<open>Properties of the array primitives\<close>

lemma indexOfFrom_first:
  "i < length xs \<Longrightarrow> xs ! i = x \<Longrightarrow> \<forall>k<i. xs ! k \<noteq> x \<Longrightarrow> indexOfFrom xs x k0 = k0 + int i"
proof (induction xs arbitrary: i k0)
  case Nil
  then show ?case by simp
next
  case (Cons y ys)
  show ?case
  proof (cases i)
    case 0
    with Cons.prems show ?thesis by simp
  next
    case (Suc j)
    from Cons.prems Suc have ne: "y \<noteq> x" by fastforce
    from Cons.prems Suc have "j < length ys" "ys ! j = x" "\<forall>k<j. ys ! k \<noteq> x" by fastforce+
    then have "indexOfFrom ys x (k0 + 1) = k0 + 1 + int j" by (rule Cons.IH)
    with ne Suc show ?thesis by simp
  qed
qed

lemma indexOf_first:
  "i < length xs \<Longrightarrow> xs ! i = x \<Longrightarrow> \<forall>k<i. xs ! k \<noteq> x \<Longrightarrow> indexOf xs x = int i"
  using indexOfFrom_first [of i xs x 0] by (simp add: indexOf_def)

lemma indexOfFrom_notin: "x \<notin> set xs \<Longrightarrow> indexOfFrom xs x k = - 1"
  by (induction xs arbitrary: k) auto

lemma indexOf_notin: "x \<notin> set xs \<Longrightarrow> indexOf xs x = - 1"
  by (simp add: indexOf_def indexOfFrom_notin)

lemma first_occurrence:
  "x \<in> set xs \<Longrightarrow> \<exists>i<length xs. xs ! i = x \<and> (\<forall>k<i. xs ! k \<noteq> x)"
proof (induction xs)
  case Nil
  then show ?case by simp
next
  case (Cons y ys)
  show ?case
  proof (cases "y = x")
    case True
    then have "0 < length (y # ys) \<and> (y # ys) ! 0 = x \<and> (\<forall>k<0. (y # ys) ! k \<noteq> x)" by simp
    then show ?thesis by blast
  next
    case False
    with Cons.prems have "x \<in> set ys" by simp
    then obtain i where i: "i < length ys" "ys ! i = x" "\<forall>k<i. ys ! k \<noteq> x"
      using Cons.IH by blast
    have "\<forall>k<Suc i. (y # ys) ! k \<noteq> x"
    proof (intro allI impI)
      fix k assume "k < Suc i"
      with i(3) False show "(y # ys) ! k \<noteq> x" by (cases k) auto
    qed
    with i(1,2) have "Suc i < length (y # ys) \<and> (y # ys) ! Suc i = x \<and> (\<forall>k<Suc i. (y # ys) ! k \<noteq> x)"
      by simp
    then show ?thesis by blast
  qed
qed

lemma remove1_first:
  "i < length xs \<Longrightarrow> xs ! i = x \<Longrightarrow> \<forall>k<i. xs ! k \<noteq> x \<Longrightarrow> remove1 x xs = take i xs @ drop (Suc i) xs"
proof (induction xs arbitrary: i)
  case Nil
  then show ?case by simp
next
  case (Cons y ys)
  show ?case
  proof (cases i)
    case 0
    with Cons.prems show ?thesis by simp
  next
    case (Suc j)
    from Cons.prems Suc have ne: "x \<noteq> y" by fastforce
    from Cons.prems Suc have "j < length ys" "ys ! j = x" "\<forall>k<j. ys ! k \<noteq> x" by fastforce+
    then have "remove1 x ys = take j ys @ drop (Suc j) ys" by (rule Cons.IH)
    with ne Suc show ?thesis by simp
  qed
qed

lemma splice_remove:
  "i < length xs \<Longrightarrow> splice xs (int i) 1 [] = ([xs ! i], take i xs @ drop (Suc i) xs)"
  by (simp add: splice_def actualStart_def Let_def take_Suc_conv_app_nth Cons_nth_drop_Suc)

lemma splice_remove_last:
  "xs \<noteq> [] \<Longrightarrow> splice xs (- 1) 1 [] = ([last xs], butlast xs)"
  by (cases xs rule: rev_cases) (simp_all add: splice_def actualStart_def Let_def)

lemma splice_insert:
  "j \<le> length ys \<Longrightarrow> splice ys (int j) 0 [v] = ([], take j ys @ [v] @ drop j ys)"
  by (simp add: splice_def actualStart_def Let_def)


lemma arrayMove_in_range:
  assumes "i < length xs" "j < length xs"
  shows "arrayMove xs (int i) (int j) =
           take j (take i xs @ drop (Suc i) xs) @ [xs ! i] @ drop j (take i xs @ drop (Suc i) xs)"
proof -
  have "j \<le> length (take i xs @ drop (Suc i) xs)" using assms by simp
  then show ?thesis
    using assms by (simp add: arrayMove_def splice_remove splice_insert)
qed

lemma nth_removed:
  "i < length xs \<Longrightarrow> k < length xs - 1 \<Longrightarrow>
   (take i xs @ drop (Suc i) xs) ! k = (if k < i then xs ! k else xs ! Suc k)"
  by (simp add: nth_append min_def)

lemma nth_inserted:
  assumes j: "j \<le> length ys" and k: "k \<le> length ys"
  shows "(take j ys @ [v] @ drop j ys) ! k =
           (if k < j then ys ! k else if k = j then v else ys ! (k - 1))"
proof (cases "k < j")
  case True
  with j show ?thesis by (simp add: nth_append)
next
  case False
  show ?thesis
  proof (cases "k = j")
    case True
    with j show ?thesis by (simp add: nth_append)
  next
    case False
    with \<open>\<not> k < j\<close> have "j < k" by simp
    then obtain m where m: "k = Suc (j + m)"
      using less_iff_Suc_add by blast
    with j k have "(take j ys @ [v] @ drop j ys) ! k = ys ! (j + m)"
      by (simp add: nth_append)
    with m show ?thesis by simp
  qed
qed

lemma length_arrayMove_in_range:
  "i < length xs \<Longrightarrow> j < length xs \<Longrightarrow> length (arrayMove xs (int i) (int j)) = length xs"
  by (simp add: arrayMove_in_range)

lemma nth_arrayMove:
  assumes "i < length xs" "j < length xs" "k < length xs"
  shows "arrayMove xs (int i) (int j) ! k =
           (if k = j then xs ! i
            else if i \<le> k \<and> k < j then xs ! Suc k
            else if j < k \<and> k \<le> i then xs ! (k - 1)
            else xs ! k)"
proof -
  let ?ys = "take i xs @ drop (Suc i) xs"
  have len: "length ?ys = length xs - 1" using assms by simp
  have j: "j \<le> length ?ys" and k: "k \<le> length ?ys" using assms by simp_all
  have "arrayMove xs (int i) (int j) ! k =
          (if k < j then ?ys ! k else if k = j then xs ! i else ?ys ! (k - 1))"
    unfolding arrayMove_in_range [OF assms(1,2)] by (rule nth_inserted [OF j k])
  also have "\<dots> = (if k = j then xs ! i
            else if i \<le> k \<and> k < j then xs ! Suc k
            else if j < k \<and> k \<le> i then xs ! (k - 1)
            else xs ! k)"
  proof (cases "k < j")
    case True
    then have "k < length xs - 1" using assms by simp
    with True show ?thesis using assms(1) by (simp add: nth_removed)
  next
    case False
    show ?thesis
    proof (cases "k = j")
      case True
      then show ?thesis by simp
    next
      case False
      with \<open>\<not> k < j\<close> have kj: "j < k" by simp
      then have "k - 1 < length xs - 1" using assms by simp
      then have "?ys ! (k - 1) = (if k - 1 < i then xs ! (k - 1) else xs ! Suc (k - 1))"
        using assms(1) by (rule nth_removed [rotated])
      with kj show ?thesis by auto
    qed
  qed
  finally show ?thesis .
qed

lemma arrayMove_to_end:
  assumes "i < length xs"
  shows "arrayMove xs (int i) (- 1) = take i xs @ drop (Suc i) xs @ [xs ! i]"
proof -
  let ?ys = "take i xs @ drop (Suc i) xs"
  have "int (length xs) + - 1 = int (length xs - 1)" using assms by simp
  moreover have "length xs - 1 \<le> length ?ys" using assms by simp
  then have "splice ?ys (int (length xs - 1)) 0 [xs ! i]
               = ([], take (length xs - 1) ?ys @ [xs ! i] @ drop (length xs - 1) ?ys)"
    by (rule splice_insert)
  ultimately show ?thesis
    using assms by (simp add: arrayMove_def splice_remove)
qed

lemma arrayMove_absent_both:
  assumes "xs \<noteq> []"
  shows "arrayMove xs (- 1) (- 1) = xs"
proof -
  have pos: "int (length xs) - 1 = int (length xs - 1)" using assms by (cases xs) simp_all
  have "splice (butlast xs) (int (length xs - 1)) 0 [last xs]
          = ([], take (length xs - 1) (butlast xs) @ [last xs] @ drop (length xs - 1) (butlast xs))"
    by (rule splice_insert) simp
  then show ?thesis
    using assms by (simp add: arrayMove_def splice_remove_last pos del: One_nat_def)
qed

lemma arrayMove_empty: "arrayMove [] (- 1) (- 1) = [None]"
  by (simp add: arrayMove_def splice_def actualStart_def)

section \<open>Properties of the drag-end handler\<close>

lemma includes_of_set: "includes_of xs x \<longleftrightarrow> x \<in> set xs"
  by (induction xs) auto

lemma reserved_iff:
  "includes_of reservedIds t \<longleftrightarrow> t \<in> {''select'', ''expand'', ''select-expand''}"
  by (auto simp: includes_of_set reservedIds_def)

lemma handleDragEnd_moving:
  assumes "active event = Some a" "over event = Some t" "a \<noteq> t"
    and "t \<notin> {''select'', ''expand'', ''select-expand''}"
  shows "handleDragEnd columnOrder event =
           arrayMove columnOrder (indexOf columnOrder (Some a)) (indexOf columnOrder (Some t))"
  using assms by (simp add: handleDragEnd_def reserved_iff)

lemma handleDragEnd_in_range:
  assumes "active event = Some a" "over event = Some t" "a \<noteq> t"
    and "t \<notin> {''select'', ''expand'', ''select-expand''}"
    and "i < length columnOrder" "columnOrder ! i = Some a" "\<forall>k<i. columnOrder ! k \<noteq> Some a"
    and "j < length columnOrder" "columnOrder ! j = Some t" "\<forall>k<j. columnOrder ! k \<noteq> Some t"
  shows "handleDragEnd columnOrder event = arrayMove columnOrder (int i) (int j)"
proof -
  have "indexOf columnOrder (Some a) = int i" using assms(5-7) by (rule indexOf_first)
  moreover have "indexOf columnOrder (Some t) = int j" using assms(8-10) by (rule indexOf_first)
  ultimately show ?thesis using handleDragEnd_moving [OF assms(1-4)] by simp
qed

lemma example_move:
  assumes "X \<notin> {''select'', ''expand'', ''select-expand''}"
  shows "handleDragEnd [Some X, Some A, Some Y] \<lparr>active = Some A, over = Some X\<rparr>
           = [Some A, Some X, Some Y]"
proof (cases "A = X")
  case True
  then show ?thesis by (simp add: handleDragEnd_def)
next
  case False
  let ?xs = "[Some X, Some A, Some Y]"
  have i: "indexOf ?xs (Some A) = 1" using False by (simp add: indexOf_def)
  have j: "indexOf ?xs (Some X) = 0" by (simp add: indexOf_def)
  have "arrayMove ?xs 1 0 = [Some A, Some X, Some Y]"
    by (simp add: arrayMove_def splice_def actualStart_def)
  with i j False assms show ?thesis by (simp add: handleDragEnd_def reserved_iff)
qed

lemma absent_target_source_present:
  assumes "active event = Some a" "over event = Some t" "a \<noteq> t"
    and "t \<notin> {''select'', ''expand'', ''select-expand''}"
    and "Some t \<notin> set columnOrder" and "Some a \<in> set columnOrder"
  shows "handleDragEnd columnOrder event = remove1 (Some a) columnOrder @ [Some a]"
proof -
  have t: "indexOf columnOrder (Some t) = - 1" using assms(5) by (rule indexOf_notin)
  obtain i where i: "i < length columnOrder" "columnOrder ! i = Some a"
        "\<forall>k<i. columnOrder ! k \<noteq> Some a"
    using first_occurrence [OF assms(6)] by blast
  then have ia: "indexOf columnOrder (Some a) = int i" by (rule indexOf_first)
  have "handleDragEnd columnOrder event = arrayMove columnOrder (int i) (- 1)"
    unfolding handleDragEnd_moving [OF assms(1-4)] t ia ..
  also have "\<dots> = take i columnOrder @ drop (Suc i) columnOrder @ [columnOrder ! i]"
    using i(1) by (rule arrayMove_to_end)
  also have "\<dots> = (take i columnOrder @ drop (Suc i) columnOrder) @ [Some a]"
    unfolding i(2) by simp
  also have "\<dots> = remove1 (Some a) columnOrder @ [Some a]"
    unfolding remove1_first [OF i] ..
  finally show ?thesis .
qed

lemma absent_target_source_absent:
  assumes "active event = Some a" "over event = Some t" "a \<noteq> t"
    and "t \<notin> {''select'', ''expand'', ''select-expand''}"
    and "Some t \<notin> set columnOrder" and "Some a \<notin> set columnOrder"
  shows "handleDragEnd columnOrder event = (if columnOrder = [] then [None] else columnOrder)"
proof -
  have t: "indexOf columnOrder (Some t) = - 1" using assms(5) by (rule indexOf_notin)
  have a: "indexOf columnOrder (Some a) = - 1" using assms(6) by (rule indexOf_notin)
  have eq: "handleDragEnd columnOrder event = arrayMove columnOrder (- 1) (- 1)"
    unfolding handleDragEnd_moving [OF assms(1-4)] t a ..
  show ?thesis
  proof (cases "columnOrder = []")
    case True
    then show ?thesis unfolding eq by (simp add: arrayMove_empty)
  next
    case False
    then show ?thesis unfolding eq by (simp add: arrayMove_absent_both)
  qed
qed

subsection \<open>Length of the column order\<close>

lemma actualStart_le: "actualStart s len \<le> len"
  by (auto simp: actualStart_def)

lemma length_splice_insert: "length (snd (splice ys p 0 [v])) = Suc (length ys)"
  using actualStart_le [of p "length ys"] by (simp add: splice_def Let_def)

lemma indexOf_cases: "indexOf xs x = - 1 \<or> (\<exists>i<length xs. indexOf xs x = int i)"
proof (cases "x \<in> set xs")
  case True
  obtain i where i: "i < length xs" "xs ! i = x" "\<forall>k<i. xs ! k \<noteq> x"
    using first_occurrence [OF True] by blast
  from i have "indexOf xs x = int i" by (rule indexOf_first)
  with i(1) have "\<exists>i<length xs. indexOf xs x = int i" by (intro exI conjI)
  then show ?thesis ..
next
  case False
  then show ?thesis by (simp add: indexOf_notin)
qed

lemma length_arrayMove_remove:
  assumes "splice xs f 1 [] = (r, ys)" and "length ys = length xs - 1" and "xs \<noteq> []"
  shows "length (arrayMove xs f t) = length xs"
proof -
  have "length (arrayMove xs f t)
          = length (snd (splice ys (if t < 0 then int (length xs) + t else t) 0
                           [case r of [] \<Rightarrow> None | x # _ \<Rightarrow> x]))"
    by (simp add: arrayMove_def assms(1) case_prod_beta)
  also have "\<dots> = Suc (length ys)" by (rule length_splice_insert)
  finally show ?thesis using assms(2,3) by simp
qed

lemma length_arrayMove_indexOf:
  assumes "xs \<noteq> []"
  shows "length (arrayMove xs (indexOf xs x) t) = length xs"
proof -
  from indexOf_cases [of xs x] show ?thesis
  proof
    assume "indexOf xs x = - 1"
    moreover have "length (arrayMove xs (- 1) t) = length xs"
      using splice_remove_last [OF assms] _ assms by (rule length_arrayMove_remove) simp
    ultimately show ?thesis by simp
  next
    assume "\<exists>i<length xs. indexOf xs x = int i"
    then obtain i where i: "i < length xs" "indexOf xs x = int i" by blast
    have "length (arrayMove xs (int i) t) = length xs"
      using splice_remove [OF i(1)] _ assms by (rule length_arrayMove_remove) (use i(1) in simp)
    with i(2) show ?thesis by simp
  qed
qed

lemma length_handleDragEnd:
  assumes "columnOrder \<noteq> []"
  shows "length (handleDragEnd columnOrder event) = length columnOrder"
proof (cases "active event")
  case None
  then show ?thesis by (simp add: handleDragEnd_def)
next
  case a: (Some a)
  show ?thesis
  proof (cases "over event")
    case None
    with a show ?thesis by (simp add: handleDragEnd_def)
  next
    case (Some t)
    show ?thesis
    proof (cases "a \<noteq> t \<and> \<not> includes_of reservedIds t")
      case True
      with a Some have "handleDragEnd columnOrder event
          = arrayMove columnOrder (indexOf columnOrder (Some a)) (indexOf columnOrder (Some t))"
        by (simp add: handleDragEnd_def)
      then show ?thesis by (simp add: length_arrayMove_indexOf [OF assms])
    next
      case False
      with a Some have "handleDragEnd columnOrder event = columnOrder"
        by (auto simp: handleDragEnd_def)
      then show ?thesis by simp
    qed
  qed
qed

lemma length_initialColumnOrder: "length (initialColumnOrder memoCols r) = length memoCols"
  by (simp add: initialColumnOrder_def)

lemma set_constant:
  assumes "xs \<noteq> []" and "\<forall>entry \<in> set xs. entry = c"
  shows "set xs = {c}"
proof
  show "set xs \<subseteq> {c}" using assms(2) by blast
next
  from assms(1) obtain e where e: "e \<in> set xs" by (cases xs) auto
  with assms(2) have "e = c" by (rule bspec)
  with e show "{c} \<subseteq> set xs" by simp
qed

section \<open>Claims about the drag-end handler\<close>

text \<open>
  Claim C1, as stated: for every column order and every drag-end event whose source and
  target are both present, have different ids, and whose target id is not reserved, the
  handler moves the element equal to the source id to the position of the target id. It
  fails when the source id does not occur in the column order: in the order \<open>[A, B, C]\<close>,
  dropping \<open>Y\<close> on \<open>A\<close> gives \<open>[C, A, B]\<close>. \<open>indexOf\<close> answers \<open>-1\<close> for the
  source, \<open>splice(-1, 1)\<close> removes the last element, and that element, not the source
  id, is put at the position of the target.
\<close>

theorem handleDragEnd_absent_source_moves_last:
  "Some ''Y'' \<notin> set [Some ''A'', Some ''B'', Some ''C'']
   \<and> handleDragEnd [Some ''A'', Some ''B'', Some ''C''] \<lparr>active = Some ''Y'', over = Some ''A''\<rparr>
       = [Some ''C'', Some ''A'', Some ''B'']
   \<and> handleDragEnd [Some ''A'', Some ''B'', Some ''C''] \<lparr>active = Some ''Y'', over = Some ''A''\<rparr> ! 0
       \<noteq> Some ''Y''"
  by (simp add: handleDragEnd_def reservedIds_def indexOf_def arrayMove_def splice_def
        actualStart_def)

text \<open>
  Claim C1, amended. Let a drag-end event have a source \<open>a\<close> and a target \<open>t\<close>, both
  present, with different ids, the target not being one of the reserved ids \<open>select\<close>,
  \<open>expand\<close>, \<open>select-expand\<close>, and let both ids occur in the column order, \<open>i\<close> and
  \<open>j\<close> being their current positions (the positions of their first occurrences). Then
  the handler moves the element at \<open>i\<close> to position \<open>j\<close>: the list keeps its length,
  the source id stands at \<open>j\<close>, every element between the two positions is shifted by
  one slot (towards the front when \<open>i < j\<close>, towards the back when \<open>j < i\<close>), and
  every position outside the range keeps its element. In particular, moving \<open>A\<close> onto the
  position of \<open>X\<close> in \<open>[X, A, Y]\<close> yields \<open>[A, X, Y]\<close>.
\<close>

theorem handleDragEnd_relocates:
  assumes "active event = Some a" "over event = Some t" "a \<noteq> t"
    and "t \<notin> {''select'', ''expand'', ''select-expand''}"
    and "i < length columnOrder" "columnOrder ! i = Some a" "\<forall>k<i. columnOrder ! k \<noteq> Some a"
    and "j < length columnOrder" "columnOrder ! j = Some t" "\<forall>k<j. columnOrder ! k \<noteq> Some t"
  shows "length (handleDragEnd columnOrder event) = length columnOrder
       \<and> handleDragEnd columnOrder event ! j = Some a
       \<and> (\<forall>k. i \<le> k \<and> k < j \<longrightarrow> handleDragEnd columnOrder event ! k = columnOrder ! (k + 1))
       \<and> (\<forall>k. j < k \<and> k \<le> i \<longrightarrow> handleDragEnd columnOrder event ! k = columnOrder ! (k - 1))
       \<and> (\<forall>k<length columnOrder. (k < i \<and> k < j) \<or> (i < k \<and> j < k) \<longrightarrow>
             handleDragEnd columnOrder event ! k = columnOrder ! k)
       \<and> (\<forall>X A Y. X \<notin> {''select'', ''expand'', ''select-expand''} \<longrightarrow>
             handleDragEnd [Some X, Some A, Some Y] \<lparr>active = Some A, over = Some X\<rparr>
               = [Some A, Some X, Some Y])"
proof -
  have eq: "handleDragEnd columnOrder event = arrayMove columnOrder (int i) (int j)"
    using assms by (rule handleDragEnd_in_range)
  have 1: "length (handleDragEnd columnOrder event) = length columnOrder"
    using assms(5,8) by (simp add: eq length_arrayMove_in_range)
  have 2: "handleDragEnd columnOrder event ! j = Some a"
    using assms(5,6,8) by (simp add: eq nth_arrayMove)
  have 3: "\<forall>k. i \<le> k \<and> k < j \<longrightarrow> handleDragEnd columnOrder event ! k = columnOrder ! (k + 1)"
    using assms(5,8) by (simp add: eq nth_arrayMove)
  have 4: "\<forall>k. j < k \<and> k \<le> i \<longrightarrow> handleDragEnd columnOrder event ! k = columnOrder ! (k - 1)"
    using assms(5,8) by (simp add: eq nth_arrayMove)
  have 5: "\<forall>k<length columnOrder. (k < i \<and> k < j) \<or> (i < k \<and> j < k) \<longrightarrow>
             handleDragEnd columnOrder event ! k = columnOrder ! k"
    using assms(5,8) by (auto simp: eq nth_arrayMove)
  have 6: "\<forall>X A Y. X \<notin> {''select'', ''expand'', ''select-expand''} \<longrightarrow>
             handleDragEnd [Some X, Some A, Some Y] \<lparr>active = Some A, over = Some X\<rparr>
               = [Some A, Some X, Some Y]"
    using example_move by blast
  from 1 2 3 4 5 6 show ?thesis by blast
qed

text \<open>
  The theorem at the order \<open>[name, age, city, zip]\<close>, dragging \<open>name\<close> onto \<open>city\<close>:
  the result is \<open>[age, city, name, zip]\<close>.
\<close>

theorem handleDragEnd_relocates_witness:
  "length (handleDragEnd [Some ''name'', Some ''age'', Some ''city'', Some ''zip'']
             \<lparr>active = Some ''name'', over = Some ''city''\<rparr>) = 4
   \<and> map ((!) (handleDragEnd [Some ''name'', Some ''age'', Some ''city'', Some ''zip'']
                  \<lparr>active = Some ''name'', over = Some ''city''\<rparr>)) [0, 1, 2, 3]
       = [Some ''age'', Some ''city'', Some ''name'', Some ''zip'']"
proof -
  let ?xs = "[Some ''name'', Some ''age'', Some ''city'', Some ''zip'']"
  let ?ev = "\<lparr>active = Some ''name'', over = Some ''city''\<rparr>"
  have h: "active ?ev = Some ''name''" "over ?ev = Some ''city''" "''name'' \<noteq> ''city''"
    "''city'' \<notin> {''select'', ''expand'', ''select-expand''}"
    "0 < length ?xs" "?xs ! 0 = Some ''name''" "\<forall>k<0. ?xs ! k \<noteq> Some ''name''"
    "2 < length ?xs" "?xs ! 2 = Some ''city''" "\<forall>k<2. ?xs ! k \<noteq> Some ''city''"
    by (simp_all add: less_Suc_eq numeral_2_eq_2)
  note r = handleDragEnd_relocates [OF h]
  from r have len: "length (handleDragEnd ?xs ?ev) = 4" by simp
  from r have n2: "handleDragEnd ?xs ?ev ! 2 = Some ''name''" by blast
  from r have "\<forall>k. 0 \<le> k \<and> k < 2 \<longrightarrow> handleDragEnd ?xs ?ev ! k = ?xs ! (k + 1)" by blast
  then have n0: "handleDragEnd ?xs ?ev ! 0 = Some ''age''"
    and n1: "handleDragEnd ?xs ?ev ! 1 = Some ''city''" by simp_all
  from r have "\<forall>k<length ?xs. (k < 0 \<and> k < 2) \<or> (0 < k \<and> 2 < k) \<longrightarrow>
             handleDragEnd ?xs ?ev ! k = ?xs ! k" by blast
  then have n3: "handleDragEnd ?xs ?ev ! 3 = Some ''zip''" by simp
  from len n0 n1 n2 n3 show ?thesis by simp
qed

text \<open>
  Claim C2. A drag-end event whose source or target is absent, whose source and target
  have the same id, or whose target id is \<open>select\<close>, \<open>expand\<close> or \<open>select-expand\<close>
  leaves the column order unchanged, whatever the column order is.
\<close>

theorem handleDragEnd_noop:
  assumes "active event = None \<or> over event = None \<or> active event = over event
           \<or> (\<exists>t \<in> {''select'', ''expand'', ''select-expand''}. over event = Some t)"
  shows "handleDragEnd columnOrder event = columnOrder"
  using assms by (auto simp: handleDragEnd_def reserved_iff split: option.splits)

text \<open>
  The theorem at a drop onto the \<open>select\<close> column, at a drop of a column onto itself,
  and at a drop outside every target.
\<close>

theorem handleDragEnd_noop_witness:
  "handleDragEnd [Some ''select'', Some ''name'', Some ''age'']
       \<lparr>active = Some ''name'', over = Some ''select''\<rparr>
     = [Some ''select'', Some ''name'', Some ''age'']
   \<and> handleDragEnd [Some ''name'', Some ''age''] \<lparr>active = Some ''age'', over = Some ''age''\<rparr>
     = [Some ''name'', Some ''age'']
   \<and> handleDragEnd [Some ''name'', Some ''age''] \<lparr>active = Some ''age'', over = None\<rparr>
     = [Some ''name'', Some ''age'']"
  using handleDragEnd_noop [of "\<lparr>active = Some ''name'', over = Some ''select''\<rparr>"
                               "[Some ''select'', Some ''name'', Some ''age'']"]
        handleDragEnd_noop [of "\<lparr>active = Some ''age'', over = Some ''age''\<rparr>"
                               "[Some ''name'', Some ''age'']"]
        handleDragEnd_noop [of "\<lparr>active = Some ''age'', over = None\<rparr>"
                               "[Some ''name'', Some ''age'']"]
  by simp

text \<open>
  Claim C3, as stated: a drag-end event with a present source and a present, non-reserved
  target whose id does not occur in the column order leaves the column order unchanged.
  It fails: in the order \<open>[A, B, C]\<close>, dropping \<open>A\<close> on a target \<open>Z\<close> that is not in
  the list gives \<open>[B, C, A]\<close>. \<open>indexOf\<close> answers \<open>-1\<close> for the target, which
  \<open>arrayMove\<close> reads as the last position.
\<close>

theorem handleDragEnd_absent_target_changes_order:
  "Some ''Z'' \<notin> set [Some ''A'', Some ''B'', Some ''C'']
   \<and> handleDragEnd [Some ''A'', Some ''B'', Some ''C''] \<lparr>active = Some ''A'', over = Some ''Z''\<rparr>
       = [Some ''B'', Some ''C'', Some ''A'']
   \<and> handleDragEnd [Some ''A'', Some ''B'', Some ''C''] \<lparr>active = Some ''A'', over = Some ''Z''\<rparr>
       \<noteq> [Some ''A'', Some ''B'', Some ''C'']"
  by (simp add: handleDragEnd_def reservedIds_def indexOf_def arrayMove_def splice_def
        actualStart_def)

text \<open>
  Claim C3, amended. For a present source \<open>a\<close> and a present, non-reserved target \<open>t\<close>
  whose id does not occur in the column order, the handler raises no error and returns:
  the column order unchanged when \<open>a\<close> is \<open>t\<close>; the column order with the first
  element equal to \<open>a\<close> moved to the end, the other elements keeping their order, when
  \<open>a\<close> occurs in it; the column order unchanged when \<open>a\<close> does not occur in it
  either and it is not empty; and the one-element list \<open>[undefined]\<close> when it is empty.
\<close>

theorem handleDragEnd_absent_target:
  assumes "active event = Some a" "over event = Some t"
    and "t \<notin> {''select'', ''expand'', ''select-expand''}"
    and "Some t \<notin> set columnOrder"
  shows "handleDragEnd columnOrder event =
           (if a = t then columnOrder
            else if Some a \<in> set columnOrder then remove1 (Some a) columnOrder @ [Some a]
            else if columnOrder = [] then [None]
            else columnOrder)"
proof (cases "a = t")
  case True
  with assms(1,2) show ?thesis by (simp add: handleDragEnd_def)
next
  case False
  show ?thesis
  proof (cases "Some a \<in> set columnOrder")
    case True
    with \<open>a \<noteq> t\<close> show ?thesis
      using absent_target_source_present [OF assms(1,2) \<open>a \<noteq> t\<close> assms(3,4) True] by simp
  next
    case notin: False
    with \<open>a \<noteq> t\<close> show ?thesis
      using absent_target_source_absent [OF assms(1,2) \<open>a \<noteq> t\<close> assms(3,4) notin] by simp
  qed
qed

text \<open>
  The theorem at the order \<open>[A, B, C]\<close> and the absent target \<open>Z\<close>: the source \<open>B\<close>
  goes to the end, and a source \<open>Y\<close> that is absent as well changes nothing.
\<close>

theorem handleDragEnd_absent_target_witness:
  "handleDragEnd [Some ''A'', Some ''B'', Some ''C''] \<lparr>active = Some ''B'', over = Some ''Z''\<rparr>
       = [Some ''A'', Some ''C'', Some ''B'']
   \<and> handleDragEnd [Some ''A'', Some ''B'', Some ''C''] \<lparr>active = Some ''Y'', over = Some ''Z''\<rparr>
       = [Some ''A'', Some ''B'', Some ''C'']"
  using handleDragEnd_absent_target [of "\<lparr>active = Some ''B'', over = Some ''Z''\<rparr>" "''B''" "''Z''"
          "[Some ''A'', Some ''B'', Some ''C'']"]
     handleDragEnd_absent_target [of "\<lparr>active = Some ''Y'', over = Some ''Z''\<rparr>" "''Y''" "''Z''"
          "[Some ''A'', Some ''B'', Some ''C'']"]
  by simp

section \<open>Claims about \<open>updateData\<close>\<close>

text \<open>
  Claim C4. For a row data set of length \<open>N\<close>, an index \<open>i\<close> with \<open>0 \<le> i < N\<close> and a
  record \<open>r\<close>, \<open>updateData(i, r)\<close> gives a row data set of length \<open>N\<close> whose element
  at \<open>i\<close> is \<open>r\<close> and whose element at every other index is the element of the
  original set at that index.
\<close>

theorem updateData_in_range:
  assumes "i < length rows"
  shows "length (updateData rows (int i) r) = length rows
       \<and> updateData rows (int i) r ! i = r
       \<and> (\<forall>k<length rows. k \<noteq> i \<longrightarrow> updateData rows (int i) r ! k = rows ! k)"
  using assms by (simp add: updateData_def)

text \<open>The theorem at the rows \<open>[a, b, c]\<close>, replacing index 1 by \<open>z\<close>.\<close>

theorem updateData_in_range_witness:
  "length (updateData [Some ''a'', Some ''b'', Some ''c''] 1 (Some ''z'')) = 3
   \<and> updateData [Some ''a'', Some ''b'', Some ''c''] 1 (Some ''z'') ! 1 = Some ''z''
   \<and> updateData [Some ''a'', Some ''b'', Some ''c''] 1 (Some ''z'') ! 0 = Some ''a''
   \<and> updateData [Some ''a'', Some ''b'', Some ''c''] 1 (Some ''z'') ! 2 = Some ''c''"
  using updateData_in_range [of 1 "[Some ''a'', Some ''b'', Some ''c'']" "Some ''z''"]
  by simp

text \<open>
  Claim C10, as stated: for every index \<open>i \<ge> N\<close>, \<open>updateData(i, r)\<close> extends the row
  data set to length \<open>i + 1\<close>. It fails at \<open>i = 2^32 - 1 = 4294967295\<close>, which is not an
  array index: on the empty row data set the assignment defines a property named
  \<open>4294967295\<close>, and the row data set stays empty.
\<close>

theorem updateData_beyond_array_index:
  "int (length ([] :: nat option list)) \<le> 4294967295
   \<and> updateData ([] :: nat option list) 4294967295 (Some 7) = []
   \<and> length (updateData ([] :: nat option list) 4294967295 (Some 7)) \<noteq> 4294967295 + 1"
  by (simp add: updateData_def maxArrayIndex_def)

text \<open>
  Claim C10, amended. For a row data set of length \<open>N\<close> and an array index \<open>i\<close> with
  \<open>N \<le> i \<le> 2^32 - 2\<close>, \<open>updateData(i, r)\<close> neither leaves the row data set as it is
  nor raises an error: the result has length \<open>i + 1\<close>, \<open>r\<close> at index \<open>i\<close>,
  \<open>undefined\<close> at the positions \<open>N\<close> to \<open>i - 1\<close>, and the first \<open>N\<close> elements
  unchanged.
\<close>

theorem updateData_extends:
  assumes "int (length rows) \<le> i" and "i \<le> maxArrayIndex"
  shows "updateData rows i r = rows @ replicate (nat i - length rows) None @ [r]
       \<and> length (updateData rows i r) = nat i + 1
       \<and> updateData rows i r ! nat i = r
       \<and> (\<forall>k. length rows \<le> k \<and> k < nat i \<longrightarrow> updateData rows i r ! k = None)
       \<and> (\<forall>k<length rows. updateData rows i r ! k = rows ! k)"
proof -
  have eq: "updateData rows i r = rows @ replicate (nat i - length rows) None @ [r]"
    using assms by (simp add: updateData_def)
  have len: "length rows \<le> nat i" using assms(1) by simp
  have 1: "length (updateData rows i r) = nat i + 1" using len by (simp add: eq)
  have 2: "updateData rows i r ! nat i = r" using len by (simp add: eq nth_append)
  have 3: "\<forall>k. length rows \<le> k \<and> k < nat i \<longrightarrow> updateData rows i r ! k = None"
    using len by (auto simp: eq nth_append)
  have 4: "\<forall>k<length rows. updateData rows i r ! k = rows ! k"
    by (simp add: eq nth_append)
  from eq 1 2 3 4 show ?thesis by blast
qed

text \<open>The theorem at the rows \<open>[1, 2]\<close> and index 4.\<close>

theorem updateData_extends_witness:
  "updateData [Some (1::nat), Some 2] 4 (Some 9) = [Some 1, Some 2, None, None, Some 9]"
  using updateData_extends [of "[Some (1::nat), Some 2]" 4 "Some 9"]
  by (simp add: maxArrayIndex_def numeral_2_eq_2)

section \<open>Claims about column augmentation and the column order\<close>

text \<open>
  Claim C5. For every base column list and every combination of \<open>enableSelection\<close> and
  \<open>enableExpansion\<close>, the augmented column list has one column more than the base list
  when at least one flag is set, and as many when neither is. In particular, with
  \<open>enableSelection\<close> set, \<open>enableExpansion\<close> unset and 3 base columns, the augmented
  list has 4 entries and the first has id \<open>select\<close>.
\<close>

theorem memoColumns_length:
  "length (memoColumns columns enableSelection enableExpansion)
     = length columns + (if truthy enableSelection \<or> truthy enableExpansion then 1 else 0)
   \<and> (truthy enableSelection \<and> \<not> truthy enableExpansion \<and> length columns = 3 \<longrightarrow>
         length (memoColumns columns enableSelection enableExpansion) = 4
         \<and> column_id (memoColumns columns enableSelection enableExpansion ! 0) = Some ''select'')"
  by (simp add: memoColumns_def selectColumn_def)

text \<open>
  The theorem at three base columns \<open>name\<close>, \<open>age\<close>, \<open>city\<close> with only
  \<open>enableSelection\<close> set.
\<close>

theorem memoColumns_length_witness:
  "length (memoColumns
      [\<lparr>column_id = Some ''name'', header = None, cell = None,
         enableSorting = None, enableHiding = None\<rparr>,
       \<lparr>column_id = Some ''age'', header = None, cell = None,
         enableSorting = None, enableHiding = None\<rparr>,
       \<lparr>column_id = Some ''city'', header = Some (Custom ()), cell = None,
         enableSorting = None, enableHiding = None\<rparr>]
      (Some True) (Some False)) = 4
   \<and> column_id (memoColumns
      [\<lparr>column_id = Some ''name'', header = None, cell = None,
         enableSorting = None, enableHiding = None\<rparr>,
       \<lparr>column_id = Some ''age'', header = None, cell = None,
         enableSorting = None, enableHiding = None\<rparr>,
       \<lparr>column_id = Some ''city'', header = Some (Custom ()), cell = None,
         enableSorting = None, enableHiding = None\<rparr>]
      (Some True) (Some False) ! 0) = Some ''select''"
  using memoColumns_length [of
      "[\<lparr>column_id = Some ''name'', header = None, cell = None,
         enableSorting = None, enableHiding = None\<rparr>,
       \<lparr>column_id = Some ''age'', header = None, cell = None,
         enableSorting = None, enableHiding = None\<rparr>,
       \<lparr>column_id = Some ''city'', header = Some (Custom ()), cell = None,
         enableSorting = None, enableHiding = None\<rparr>]"
      "Some True" "Some False"]
  by (simp add: truthy_def)

text \<open>
  Claim C6. When both \<open>enableSelection\<close> and \<open>enableExpansion\<close> are unset, column
  augmentation is the identity on the base column list.
\<close>

theorem memoColumns_neither:
  assumes "\<not> truthy enableSelection" and "\<not> truthy enableExpansion"
  shows "memoColumns columns enableSelection enableExpansion = columns"
  using assms by (simp add: memoColumns_def)

text \<open>The theorem with one flag omitted and the other one false.\<close>

theorem memoColumns_neither_witness:
  "memoColumns
      [\<lparr>column_id = Some ''name'', header = Some (Custom ()), cell = None,
         enableSorting = None, enableHiding = None\<rparr>]
      None (Some False)
     = [\<lparr>column_id = Some ''name'', header = Some (Custom ()), cell = None,
          enableSorting = None, enableHiding = None\<rparr>]"
  using memoColumns_neither [of None "Some False"
      "[\<lparr>column_id = Some ''name'', header = Some (Custom ()), cell = None,
          enableSorting = None, enableHiding = None\<rparr>]"]
  by (simp add: truthy_def)

text \<open>
  Claim C7. The initial column order maps each augmented column to its id when
  \<open>enableColumnReorder\<close> is set and the column declares an id, and to the empty string
  otherwise: the state the code computes is the list \<open>columnOrder_spec\<close> written from
  that sentence. In particular, when \<open>enableColumnReorder\<close> is unset, every entry is the
  empty string.
\<close>

theorem initialColumnOrder_spec:
  "initialColumnOrder memoCols enableColumnReorder
     = map Some (columnOrder_spec memoCols enableColumnReorder)
   \<and> (\<not> truthy enableColumnReorder \<longrightarrow>
         (\<forall>entry \<in> set (initialColumnOrder memoCols enableColumnReorder). entry = Some ''''))"
  by (auto simp: initialColumnOrder_def columnOrder_spec_def split: option.splits)

text \<open>
  The theorem at the augmented columns \<open>select\<close>, \<open>name\<close> and a column without id:
  with reordering the order is \<open>[select, name, ""]\<close>, without it every entry is empty.
\<close>

theorem initialColumnOrder_spec_witness:
  "initialColumnOrder
      [\<lparr>column_id = Some ''select'', header = None, cell = None,
         enableSorting = None, enableHiding = None\<rparr>,
       \<lparr>column_id = Some ''name'', header = None, cell = None,
         enableSorting = None, enableHiding = None\<rparr>,
       \<lparr>column_id = None, header = Some (Custom ()), cell = None,
         enableSorting = None, enableHiding = None\<rparr>]
      (Some True)
     = [Some ''select'', Some ''name'', Some '''']
   \<and> set (initialColumnOrder
          [\<lparr>column_id = Some ''select'', header = None, cell = None,
             enableSorting = None, enableHiding = None\<rparr>,
           \<lparr>column_id = Some ''name'', header = None, cell = None,
             enableSorting = None, enableHiding = None\<rparr>,
           \<lparr>column_id = None, header = Some (Custom ()), cell = None,
             enableSorting = None, enableHiding = None\<rparr>]
          None) = {Some ''''}"
proof -
  let ?mc = "[\<lparr>column_id = Some ''select'', header = None, cell = None,
                enableSorting = None, enableHiding = None\<rparr>,
              \<lparr>column_id = Some ''name'', header = None, cell = None,
                enableSorting = None, enableHiding = None\<rparr>,
              \<lparr>column_id = None, header = Some (Custom ()), cell = None,
                enableSorting = None, enableHiding = None\<rparr>]"
  have spec: "columnOrder_spec ?mc (Some True) = [''select'', ''name'', '''']"
    by (simp add: columnOrder_spec_def truthy_def)
  have "initialColumnOrder ?mc (Some True) = map Some (columnOrder_spec ?mc (Some True))"
    using initialColumnOrder_spec [of ?mc "Some True"] by (rule conjunct1)
  then have 1: "initialColumnOrder ?mc (Some True) = [Some ''select'', Some ''name'', Some '''']"
    by (simp only: spec list.map)
  have off: "\<not> truthy None" by (simp add: truthy_def)
  have "\<not> truthy None \<longrightarrow> (\<forall>entry \<in> set (initialColumnOrder ?mc None). entry = Some '''')"
    using initialColumnOrder_spec [of ?mc None] by (rule conjunct2)
  with off have all: "\<forall>entry \<in> set (initialColumnOrder ?mc None). entry = Some ''''"
    by (rule rev_mp)
  have "initialColumnOrder ?mc None \<noteq> []" by (simp add: initialColumnOrder_def)
  then have 2: "set (initialColumnOrder ?mc None) = {Some ''''}"
    using all by (rule set_constant)
  from 1 2 show ?thesis by (rule conjI)
qed

text \<open>
  Claim C8, as stated: the column order is as long as the augmented column list at
  initialization, and every drag-end event preserves its length. It fails when there is
  no column at all: the initial column order is empty, and a drag-end event with two
  different, non-reserved ids makes \<open>arrayMove\<close> remove nothing and insert
  \<open>undefined\<close>, so the column order has one entry while the augmented column list has
  none.
\<close>

theorem columnOrder_length_empty_columns:
  "initialColumnOrder (memoColumns ([] :: unit columnDef list) None None) (Some True) = []
   \<and> handleDragEnd
         (initialColumnOrder (memoColumns ([] :: unit columnDef list) None None) (Some True))
         \<lparr>active = Some ''a'', over = Some ''b''\<rparr> = [None]
   \<and> length (handleDragEnd
         (initialColumnOrder (memoColumns ([] :: unit columnDef list) None None) (Some True))
         \<lparr>active = Some ''a'', over = Some ''b''\<rparr>)
       \<noteq> length (memoColumns ([] :: unit columnDef list) None None)"
  by (simp add: memoColumns_def truthy_def initialColumnOrder_def
        handleDragEnd_def reservedIds_def indexOf_def arrayMove_def splice_def actualStart_def)

text \<open>
  Claim C8, amended. The initial column order is as long as the augmented column list it
  is computed from, and every drag-end event, whether it reorders or not, preserves the
  length of a non-empty column order.
\<close>

theorem columnOrder_length:
  "length (initialColumnOrder memoCols enableColumnReorder) = length memoCols
   \<and> (columnOrder \<noteq> [] \<longrightarrow> length (handleDragEnd columnOrder event) = length columnOrder)"
proof -
  have 1: "length (initialColumnOrder memoCols enableColumnReorder) = length memoCols"
    by (rule length_initialColumnOrder)
  have 2: "columnOrder \<noteq> [] \<longrightarrow> length (handleDragEnd columnOrder event) = length columnOrder"
    by (simp add: length_handleDragEnd)
  from 1 2 show ?thesis by (rule conjI)
qed

text \<open>
  The theorem at the augmented columns \<open>select\<close> and \<open>name\<close>, and at their column
  order with a drag onto an id that is not in it.
\<close>

theorem columnOrder_length_witness:
  "length (initialColumnOrder
      [\<lparr>column_id = Some ''select'', header = None, cell = None,
         enableSorting = None, enableHiding = None\<rparr>,
       \<lparr>column_id = Some ''name'', header = Some (Custom ()), cell = None,
         enableSorting = None, enableHiding = None\<rparr>]
      (Some True)) = 2
   \<and> length (handleDragEnd [Some ''select'', Some ''name'']
               \<lparr>active = Some ''select'', over = Some ''zip''\<rparr>) = 2"
proof -
  let ?mc = "[\<lparr>column_id = Some ''select'', header = None, cell = None,
                enableSorting = None, enableHiding = None\<rparr>,
              \<lparr>column_id = Some ''name'', header = Some (Custom ()), cell = None,
                enableSorting = None, enableHiding = None\<rparr>]"
  let ?order = "[Some ''select'', Some ''name'']"
  let ?ev = "\<lparr>active = Some ''select'', over = Some ''zip''\<rparr>"
  note r = columnOrder_length [of ?mc "Some True" ?order ?ev]
  from r have "length (initialColumnOrder ?mc (Some True)) = length ?mc" by (rule conjunct1)
  then have 1: "length (initialColumnOrder ?mc (Some True)) = 2" by simp
  have ne: "?order \<noteq> []" by simp
  from r have "?order \<noteq> [] \<longrightarrow> length (handleDragEnd ?order ?ev) = length ?order"
    by (rule conjunct2)
  with ne have "length (handleDragEnd ?order ?ev) = length ?order" by (rule rev_mp)
  then have 2: "length (handleDragEnd ?order ?ev) = 2" by simp
  from 1 2 show ?thesis by (rule conjI)
qed

section \<open>Claims about the table context\<close>

text \<open>
  Claim C9, as stated: consuming the context outside every provider raises an error with
  the message \<open>must be used within a Provider\<close>. The error is raised, but that is not
  its message.
\<close>

theorem useTableContext_message:
  "useTableContext ([] :: unit list)
     = Inl (Error ''useTableContext must be used within a TableProvider'')
   \<and> useTableContext ([] :: unit list) \<noteq> Inl (Error ''must be used within a Provider'')"
  by (simp add: useTableContext_def useContext_def)

text \<open>
  Claim C9, amended. Consuming the table context raises an error if and only if no
  provider encloses the consumer; the error then has the message
  \<open>useTableContext must be used within a TableProvider\<close>. Inside a provided subtree the
  consumer gets the value of the nearest enclosing provider, without error.
\<close>

theorem useTableContext_provider:
  "((\<exists>e. useTableContext enclosing = Inl e) \<longleftrightarrow> enclosing = [])
   \<and> (enclosing = [] \<longrightarrow>
        useTableContext enclosing
          = Inl (Error ''useTableContext must be used within a TableProvider''))
   \<and> useTableContext (TableProvider v enclosing) = Inr v"
  by (cases enclosing) (simp_all add: useTableContext_def useContext_def TableProvider_def)

text \<open>
  The theorem outside every provider, and inside a provider of the value 1 that is
  itself inside a provider of the value 2.
\<close>

theorem useTableContext_provider_witness:
  "useTableContext ([] :: nat list)
     = Inl (Error ''useTableContext must be used within a TableProvider'')
   \<and> useTableContext (TableProvider (1::nat) (TableProvider 2 [])) = Inr 1"
  using useTableContext_provider [of "[] :: nat list" 0]
        useTableContext_provider [of "TableProvider (2::nat) []" 1]
  by simp

end
